theory Spec2Isabelle
  imports Complex_Main
begin

section \<open>The dashboard script of the adaptive file encryptor (ui/script.js)\<close>

text \<open>
  The script is the browser side of the encryptor: three workflows (encrypt, compare,
  decrypt), each a click handler that posts a multipart form and renders the answer
  into a per-tab log, plus a few formatting helpers.

  Conventions of the embedding.
  \<^item> A JavaScript string is the list of the bytes of its UTF-8 encoding, which is the
    encoding of the script file and of the wire. Pictographs in the messages are written
    byte by byte. (A string with an unpaired surrogate has no UTF-8 encoding and is
    not in the model.)
  \<^item> A JavaScript number is its exact value: a rational, one of the two infinities, or
    NaN. Rounding to binary64, overflow to an infinity and the sign of zero are not
    represented. The byte counts handed to \<open>fmtBytes\<close> are file sizes, natural numbers,
    whose quotients by powers of 1024 are exact in binary64 as well.
  \<^item> A promise that settles is a sum: \<open>Inl m\<close> is a rejection with an error whose
    \<open>message\<close> is \<open>m\<close>, \<open>Inr v\<close> is fulfilment with \<open>v\<close>.
\<close>

subsection \<open>Strings\<close>

definition dquote :: char where
  "dquote = CHR 0x22"

definition newline :: char where
  "newline = CHR 0x0A"

definition digit_char :: "nat \<Rightarrow> char" where
  "digit_char d = ''0123456789'' ! d"

text \<open>Decimal digits of a natural number, as \<open>String(n)\<close> prints an integer.\<close>

fun show_nat :: "nat \<Rightarrow> string" where
  "show_nat n = (if n < 10 then [digit_char n] else show_nat (n div 10) @ [digit_char (n mod 10)])"

declare show_nat.simps [simp del]

fun starts_with :: "string \<Rightarrow> string \<Rightarrow> bool" where
  "starts_with s [] = True"
| "starts_with [] (p # ps) = False"
| "starts_with (c # cs) (p # ps) = (c = p \<and> starts_with cs ps)"

text \<open>
  \<open>s.split(sep)\<close> for a separator that is not empty: the pieces between the
  occurrences of \<open>sep\<close>, found from the left without overlap. (The script only splits
  at \<open>'filename='\<close> and at \<open>'/'\<close>; with an empty separator the function returns the
  string unsplit, which is not what JavaScript does.) The case \<open>[]\<close> of the recursive
  result never arises: a split has at least one piece.
\<close>

fun split :: "string \<Rightarrow> string \<Rightarrow> string list" where
  "split sep [] = [[]]"
| "split sep (c # cs) =
     (if sep \<noteq> [] \<and> starts_with (c # cs) sep
      then [] # split sep (drop (length sep) (c # cs))
      else (case split sep cs of [] \<Rightarrow> [[c]] | p # ps \<Rightarrow> (c # p) # ps))"

declare split.simps(2) [simp del]

text \<open>\<open>a[i]\<close> on an array: \<open>undefined\<close> out of range.\<close>

fun index :: "'a list \<Rightarrow> nat \<Rightarrow> 'a option" where
  "index [] i = None"
| "index (x # xs) 0 = Some x"
| "index (x # xs) (Suc i) = index xs i"

text \<open>\<open>a.pop()\<close> as a value: the last element, \<open>undefined\<close> for the empty array.\<close>

definition pop :: "'a list \<Rightarrow> 'a option" where
  "pop xs = (case xs of [] \<Rightarrow> None | _ \<Rightarrow> Some (last xs))"

text \<open>\<open>s.replace(/"/g, '')\<close>: every double quote removed.\<close>

definition remove_quotes :: "string \<Rightarrow> string" where
  "remove_quotes s = filter (\<lambda>c. c \<noteq> dquote) s"

text \<open>
  The white space that \<open>trim\<close> and \<open>parseFloat\<close> skip (WhiteSpace and LineTerminator
  of ECMAScript), each character as its UTF-8 bytes: U+0009 to U+000D, U+0020, U+00A0,
  U+1680, U+2000 to U+200A, U+2028, U+2029, U+202F, U+205F, U+3000, U+FEFF.
\<close>

definition white_space :: "string list" where
  "white_space =
    [[CHR 0x09], [CHR 0x0A], [CHR 0x0B], [CHR 0x0C], [CHR 0x0D], [CHR 0x20],
     [CHR 0xC2, CHR 0xA0],
     [CHR 0xE1, CHR 0x9A, CHR 0x80],
     [CHR 0xE2, CHR 0x80, CHR 0x80], [CHR 0xE2, CHR 0x80, CHR 0x81],
     [CHR 0xE2, CHR 0x80, CHR 0x82], [CHR 0xE2, CHR 0x80, CHR 0x83],
     [CHR 0xE2, CHR 0x80, CHR 0x84], [CHR 0xE2, CHR 0x80, CHR 0x85],
     [CHR 0xE2, CHR 0x80, CHR 0x86], [CHR 0xE2, CHR 0x80, CHR 0x87],
     [CHR 0xE2, CHR 0x80, CHR 0x88], [CHR 0xE2, CHR 0x80, CHR 0x89],
     [CHR 0xE2, CHR 0x80, CHR 0x8A],
     [CHR 0xE2, CHR 0x80, CHR 0xA8], [CHR 0xE2, CHR 0x80, CHR 0xA9],
     [CHR 0xE2, CHR 0x80, CHR 0xAF],
     [CHR 0xE2, CHR 0x81, CHR 0x9F],
     [CHR 0xE3, CHR 0x80, CHR 0x80],
     [CHR 0xEF, CHR 0xBB, CHR 0xBF]]"

text \<open>Remove one of the tokens \<open>ts\<close> from the front of \<open>s\<close>, if one is there.\<close>

fun strip_one :: "string list \<Rightarrow> string \<Rightarrow> string option" where
  "strip_one [] s = None"
| "strip_one (t # ts) s =
     (if t \<noteq> [] \<and> starts_with s t then Some (drop (length t) s) else strip_one ts s)"

lemma starts_with_nonempty: "starts_with s (p # ps) \<Longrightarrow> s \<noteq> []"
  by (cases s) auto

lemma strip_one_shorter: "strip_one ts s = Some r \<Longrightarrow> length r < length s"
  by (induction ts) (auto split: if_splits simp: neq_Nil_conv dest: starts_with_nonempty)

function strip_all :: "string list \<Rightarrow> string \<Rightarrow> string" where
  "strip_all ts s = (case strip_one ts s of None \<Rightarrow> s | Some r \<Rightarrow> strip_all ts r)"
  by pat_completeness auto
termination
  by (relation "measure (\<lambda>(ts, s). length s)") (auto dest: strip_one_shorter)

declare strip_all.simps [simp del]

definition trimStart :: "string \<Rightarrow> string" where
  "trimStart s = strip_all white_space s"

definition trimEnd :: "string \<Rightarrow> string" where
  "trimEnd s = rev (strip_all (map rev white_space) (rev s))"

definition trim :: "string \<Rightarrow> string" where
  "trim s = trimEnd (trimStart s)"

text \<open>
  \<open>encodeURIComponent\<close>: the letters, the digits and \<open>- _ . ! ~ * ' ( )\<close> stand for
  themselves, every other byte of the UTF-8 encoding becomes \<open>%XX\<close> in upper-case
  hexadecimal.
\<close>

definition unreserved :: "char \<Rightarrow> bool" where
  "unreserved c \<longleftrightarrow>
     c \<in> set ''ABCDEFGHIJKLMNOPQRSTUVWXYZabcdefghijklmnopqrstuvwxyz0123456789-_.!~*()''
     \<or> c = CHR 0x27"

definition hex_digit :: "nat \<Rightarrow> char" where
  "hex_digit d = ''0123456789ABCDEF'' ! d"

definition percent_byte :: "char \<Rightarrow> string" where
  "percent_byte c =
     (if unreserved c then [c]
      else [CHR ''%'', hex_digit (of_char c div 16), hex_digit (of_char c mod 16)])"

definition encodeURIComponent :: "string \<Rightarrow> string" where
  "encodeURIComponent s = concat (map percent_byte s)"

subsection \<open>Numbers\<close>

datatype number = Finite rat | PosInfinity | NegInfinity | NaN

text \<open>\<open>x > y\<close>: false as soon as one side is NaN.\<close>

fun num_gt :: "number \<Rightarrow> number \<Rightarrow> bool" where
  "num_gt NaN y = False"
| "num_gt x NaN = False"
| "num_gt (Finite a) (Finite b) = (a > b)"
| "num_gt PosInfinity PosInfinity = False"
| "num_gt PosInfinity y = True"
| "num_gt x PosInfinity = False"
| "num_gt NegInfinity y = False"
| "num_gt x NegInfinity = True"

fun num_neg :: "number \<Rightarrow> number" where
  "num_neg (Finite a) = Finite (- a)"
| "num_neg PosInfinity = NegInfinity"
| "num_neg NegInfinity = PosInfinity"
| "num_neg NaN = NaN"

text \<open>\<open>x - y\<close>.\<close>

fun num_sub :: "number \<Rightarrow> number \<Rightarrow> number" where
  "num_sub NaN y = NaN"
| "num_sub x NaN = NaN"
| "num_sub (Finite a) (Finite b) = Finite (a - b)"
| "num_sub PosInfinity PosInfinity = NaN"
| "num_sub NegInfinity NegInfinity = NaN"
| "num_sub PosInfinity y = PosInfinity"
| "num_sub NegInfinity y = NegInfinity"
| "num_sub x PosInfinity = NegInfinity"
| "num_sub x NegInfinity = PosInfinity"

text \<open>The infinity with the sign of \<open>a\<close>; NaN for zero (\<open>0 * Infinity\<close>, \<open>0 / 0\<close>).\<close>

definition signed_infinity :: "rat \<Rightarrow> number" where
  "signed_infinity a = (if a > 0 then PosInfinity else if a < 0 then NegInfinity else NaN)"

text \<open>\<open>x * y\<close>.\<close>

fun num_mul :: "number \<Rightarrow> number \<Rightarrow> number" where
  "num_mul NaN y = NaN"
| "num_mul x NaN = NaN"
| "num_mul (Finite a) (Finite b) = Finite (a * b)"
| "num_mul (Finite a) PosInfinity = signed_infinity a"
| "num_mul (Finite a) NegInfinity = signed_infinity (- a)"
| "num_mul PosInfinity (Finite b) = signed_infinity b"
| "num_mul NegInfinity (Finite b) = signed_infinity (- b)"
| "num_mul PosInfinity PosInfinity = PosInfinity"
| "num_mul NegInfinity NegInfinity = PosInfinity"
| "num_mul PosInfinity NegInfinity = NegInfinity"
| "num_mul NegInfinity PosInfinity = NegInfinity"

text \<open>\<open>x / y\<close>; a zero divisor is the positive zero.\<close>

fun num_div :: "number \<Rightarrow> number \<Rightarrow> number" where
  "num_div NaN y = NaN"
| "num_div x NaN = NaN"
| "num_div (Finite a) (Finite b) = (if b = 0 then signed_infinity a else Finite (a / b))"
| "num_div (Finite a) y = Finite 0"
| "num_div PosInfinity (Finite b) = (if b < 0 then NegInfinity else PosInfinity)"
| "num_div NegInfinity (Finite b) = (if b < 0 then PosInfinity else NegInfinity)"
| "num_div x y = NaN"

text \<open>\<open>Math.abs(x)\<close>.\<close>

fun num_abs :: "number \<Rightarrow> number" where
  "num_abs (Finite a) = Finite \<bar>a\<bar>"
| "num_abs PosInfinity = PosInfinity"
| "num_abs NegInfinity = PosInfinity"
| "num_abs NaN = NaN"

text \<open>
  \<open>x.toFixed(d)\<close> for \<open>x \<ge> 0\<close>: the integer \<open>k\<close> with \<open>k / 10^d\<close> nearest to \<open>x\<close>, the
  larger one on a tie, printed with \<open>d\<close> digits after the point.
\<close>

definition nearest :: "nat \<Rightarrow> rat \<Rightarrow> nat" where
  "nearest d x = nat \<lfloor>x * 10 ^ d + 1 / 2\<rfloor>"

definition pad_zeros :: "nat \<Rightarrow> string \<Rightarrow> string" where
  "pad_zeros d s = replicate (d - length s) CHR ''0'' @ s"

definition fixed :: "nat \<Rightarrow> nat \<Rightarrow> string" where
  "fixed d k =
     (if d = 0 then show_nat k
      else show_nat (k div 10 ^ d) @ ''.'' @ pad_zeros d (show_nat (k mod 10 ^ d)))"

text \<open>
  \<open>x.toFixed(d)\<close>. (From \<open>10^21\<close> on JavaScript prints exponent notation instead; the
  model prints the digits.)
\<close>

fun toFixed :: "nat \<Rightarrow> number \<Rightarrow> string" where
  "toFixed d NaN = ''NaN''"
| "toFixed d PosInfinity = ''Infinity''"
| "toFixed d NegInfinity = ''-Infinity''"
| "toFixed d (Finite x) =
     (if x < 0 then ''-'' @ fixed d (nearest d (- x)) else fixed d (nearest d x))"

subsection \<open>parseFloat\<close>

definition is_digit :: "char \<Rightarrow> bool" where
  "is_digit c \<longleftrightarrow> c \<in> set ''0123456789''"

definition digit_val :: "char \<Rightarrow> nat" where
  "digit_val c = of_char c - 48"

definition read_nat :: "string \<Rightarrow> nat" where
  "read_nat ds = foldl (\<lambda>a c. 10 * a + digit_val c) 0 ds"

text \<open>
  The exponent part \<open>e\<close>, \<open>e+\<close> or \<open>e-\<close> followed by digits, at the front of the rest
  of the text; 0 when the rest does not start with a complete exponent part.
\<close>

definition exponent :: "string \<Rightarrow> int" where
  "exponent s =
     (case s of
        [] \<Rightarrow> 0
      | c # r \<Rightarrow>
          if c = CHR ''e'' \<or> c = CHR ''E'' then
            (case r of
               [] \<Rightarrow> 0
             | c' # r' \<Rightarrow>
                 if c' = CHR ''+'' then
                   (if takeWhile is_digit r' = [] then 0 else int (read_nat (takeWhile is_digit r')))
                 else if c' = CHR ''-'' then
                   (if takeWhile is_digit r' = [] then 0 else - int (read_nat (takeWhile is_digit r')))
                 else
                   (if takeWhile is_digit r = [] then 0 else int (read_nat (takeWhile is_digit r))))
          else 0)"

definition scale10 :: "rat \<Rightarrow> int \<Rightarrow> rat" where
  "scale10 x e = (if e < 0 then x / 10 ^ nat (- e) else x * 10 ^ nat e)"

text \<open>
  The longest prefix that is an unsigned decimal literal (\<open>Infinity\<close>, digits with an
  optional fraction and exponent, or a fraction that starts with the point), and its
  value; NaN when there is none.
\<close>

definition unsigned_literal :: "string \<Rightarrow> number" where
  "unsigned_literal s =
     (if starts_with s ''Infinity'' then PosInfinity
      else
        let ip = takeWhile is_digit s; r = dropWhile is_digit s in
        (case r of
           [] \<Rightarrow> if ip = [] then NaN else Finite (of_nat (read_nat ip))
         | c # r' \<Rightarrow>
             if c = CHR ''.'' then
               (let fp = takeWhile is_digit r'; r'' = dropWhile is_digit r' in
                if ip = [] \<and> fp = [] then NaN
                else Finite (scale10
                       (of_nat (read_nat ip) + of_nat (read_nat fp) / 10 ^ length fp)
                       (exponent r'')))
             else if ip = [] then NaN
             else Finite (scale10 (of_nat (read_nat ip)) (exponent r))))"

definition parseFloat :: "string \<Rightarrow> number" where
  "parseFloat s =
     (case trimStart s of
        [] \<Rightarrow> NaN
      | c # r \<Rightarrow>
          if c = CHR ''+'' then unsigned_literal r
          else if c = CHR ''-'' then num_neg (unsigned_literal r)
          else unsigned_literal (c # r))"

subsection \<open>fmtBytes\<close>

text \<open>
  \<^verbatim>\<open>
  function fmtBytes(n) {
      if (n < 1) return "0 B";
      if (n < 1024) return n.toFixed(0) + " B";
      if (n < 1024 ** 2) return (n / 1024).toFixed(1) + " KB";
      if (n < 1024 ** 3) return (n / 1024 ** 2).toFixed(1) + " MB";
      return (n / 1024 ** 3).toFixed(1) + " GB";
  }
  \<close>
\<close>

definition fmtBytes :: "nat \<Rightarrow> string" where
  "fmtBytes n =
     (if n < 1 then ''0 B''
      else if n < 1024 then toFixed 0 (Finite (of_nat n)) @ '' B''
      else if n < 1024 ^ 2 then toFixed 1 (Finite (of_nat n / 1024)) @ '' KB''
      else if n < 1024 ^ 3 then toFixed 1 (Finite (of_nat n / 1024 ^ 2)) @ '' MB''
      else toFixed 1 (Finite (of_nat n / 1024 ^ 3)) @ '' GB'')"

subsection \<open>The page\<close>

text \<open>
  The parts of the document and of the browser that the handlers read and write. A log
  panel is the list of its child nodes; an object URL that is live is an entry of
  \<open>object_urls\<close>; a timer that is pending is an entry of \<open>timers\<close> with its delay in
  milliseconds. Scrolling is not represented.
\<close>

record js_file =
  name :: string
  content :: string

record anchor =
  href :: string
  download :: string
  textContent :: string
  className :: string

datatype node = TextNode string | AnchorNode anchor

datatype tab = enc | cmp | dec

datatype button = btnEncrypt | btnCompare | btnDecrypt

datatype control = pwEnc | aesModeEnc | policyEnc | pwCmp | aesModeCmp | pwDec

datatype callback = RevokeAndRemove anchor

record page =
  disabled :: "button \<Rightarrow> bool"
  logs :: "tab \<Rightarrow> node list"
  footer :: string
  comparisonChart :: "(number \<times> number) option"
  control_value :: "control \<Rightarrow> string"
  chosenFilesEnc :: "js_file list"
  chosenFilesCmp :: "js_file list"
  pkg_files :: "js_file list"
  object_urls :: "(string \<times> string) list"
  next_url :: nat
  timers :: "(nat \<times> callback) list"
  body_children :: "anchor list"
  clicked :: "anchor list"

fun node_text :: "node \<Rightarrow> string" where
  "node_text (TextNode s) = s"
| "node_text (AnchorNode a) = textContent a"

text \<open>The \<open>textContent\<close> of a log panel: the text of its children, in order.\<close>

definition log_text :: "tab \<Rightarrow> page \<Rightarrow> string" where
  "log_text t p = concat (map node_text (logs p t))"

text \<open>
  \<^verbatim>\<open>logEl.textContent += m + "\n"\<close>: the assignment replaces the children of the panel
  by one text node.
\<close>

definition log :: "tab \<Rightarrow> string \<Rightarrow> page \<Rightarrow> page" where
  "log t m p = p\<lparr>logs := (logs p)(t := [TextNode (log_text t p @ m @ [newline])])\<rparr>"

definition logHTML :: "tab \<Rightarrow> anchor \<Rightarrow> page \<Rightarrow> page" where
  "logHTML t html p = p\<lparr>logs := (logs p)(t := logs p t @ [AnchorNode html])\<rparr>"

definition setStatus :: "string \<Rightarrow> page \<Rightarrow> page" where
  "setStatus text p = p\<lparr>footer := ''Status: '' @ text\<rparr>"

text \<open>
  \<open>URL.createObjectURL\<close> gives a URL that no live object URL has; the model numbers
  them. \<open>URL.revokeObjectURL\<close> ends the life of one.
\<close>

definition createObjectURL :: "string \<Rightarrow> page \<Rightarrow> string \<times> page" where
  "createObjectURL blob p =
     (let u = ''blob:'' @ show_nat (next_url p)
      in (u, p\<lparr>object_urls := object_urls p @ [(u, blob)], next_url := Suc (next_url p)\<rparr>))"







definition initChart :: "page \<Rightarrow> page" where
  "initChart p = p\<lparr>comparisonChart := Some (Finite 0, Finite 0)\<rparr>"

definition updateChart :: "number \<Rightarrow> number \<Rightarrow> page \<Rightarrow> page" where
  "updateChart fifoTime priorityTime p =
     (let p1 = (if comparisonChart p = None then initChart p else p)
      in p1\<lparr>comparisonChart := Some (fifoTime, priorityTime)\<rparr>)"

subsection \<open>Requests and responses\<close>

datatype form_value = Field string | Upload js_file string

record request =
  url :: string
  http_method :: string
  form :: "(string \<times> form_value) list"

text \<open>
  A parsed JSON body, as the three properties the handlers read; \<open>None\<close> is a
  property that the object does not have. (The interface gives \<open>error\<close> and
  \<open>session_id\<close> as strings, \<open>files\<close> as a list of strings; bodies of other shapes are
  not in the model.)
\<close>

record json_body =
  error :: "string option"
  session_id :: "string option"
  files :: "string list option"

text \<open>
  A response: its status, \<open>headers.get\<close>, and what \<open>json()\<close> and \<open>blob()\<close> settle
  to (\<open>json()\<close> rejects when the body is not JSON, with the parser's message).
\<close>

record response =
  status :: nat
  headers_get :: "string \<Rightarrow> string option"
  json :: "string + json_body"
  blob :: "string + string"

definition ok :: "response \<Rightarrow> bool" where
  "ok r \<longleftrightarrow> 200 \<le> status r \<and> status r \<le> 299"

text \<open>\<open>h || d\<close> for a header value \<open>h\<close>: \<open>null\<close> and the empty string give \<open>d\<close>.\<close>

definition or_default :: "string option \<Rightarrow> string \<Rightarrow> string" where
  "or_default h d = (case h of None \<Rightarrow> d | Some v \<Rightarrow> if v = [] then d else v)"

text \<open>
  \<^verbatim>\<open>
  const err = await response.json();
  throw new Error(err.error || `Server responded with ${response.status}`);
  \<close>
  The message of what is thrown: \<open>json()\<close> may reject first.
\<close>

definition server_error :: "response \<Rightarrow> string" where
  "server_error r =
     (case json r of
        Inl m \<Rightarrow> m
      | Inr err \<Rightarrow> or_default (error err) (''Server responded with '' @ show_nat (status r)))"

text \<open>
  \<^verbatim>\<open>response.headers.get('content-disposition')?.split('filename=')[1]?.replace(/"/g, '') || fallback\<close>
\<close>

definition disposition_filename :: "response \<Rightarrow> string \<Rightarrow> string" where
  "disposition_filename r fallback =
     (case headers_get r ''content-disposition'' of
        None \<Rightarrow> fallback
      | Some h \<Rightarrow>
          (case index (split ''filename='' h) 1 of
             None \<Rightarrow> fallback
           | Some seg \<Rightarrow> or_default (Some (remove_quotes seg)) fallback))"

text \<open>\<^verbatim>\<open>parseFloat(response.headers.get(h) || '0')\<close>\<close>

definition header_time :: "response \<Rightarrow> string \<Rightarrow> number" where
  "header_time r h = parseFloat (or_default (headers_get r h) ''0'')"

subsection \<open>Pictographs of the messages\<close>

definition rocket :: string where
  "rocket = [CHR 0xF0, CHR 0x9F, CHR 0x9A, CHR 0x80]"

definition check_mark :: string where
  "check_mark = [CHR 0xE2, CHR 0x9C, CHR 0x85]"

definition cross_mark :: string where
  "cross_mark = [CHR 0xE2, CHR 0x9D, CHR 0x8C]"

definition trophy :: string where
  "trophy = [CHR 0xF0, CHR 0x9F, CHR 0x8F, CHR 0x86]"

definition snail :: string where
  "snail = [CHR 0xF0, CHR 0x9F, CHR 0x90, CHR 0x8C]"

definition down_arrow :: string where
  "down_arrow = [CHR 0xE2, CHR 0xAC, CHR 0x87, CHR 0xEF, CHR 0xB8, CHR 0x8F]"

subsection \<open>The three workflows\<close>

text \<open>
  A click handler runs in two parts. The first, \<open>_send\<close>, is what runs at once, up to
  the \<open>await\<close> of \<open>fetch\<close>: it gives the page and the request that is sent. The second,
  \<open>_receive\<close>, is what runs once \<open>fetch\<close> has settled: the rest of the \<open>try\<close> block
  (\<open>_try\<close>, which gives the page at the point where the block ends and the message of
  what it threw, if it threw), then \<open>catch\<close> and \<open>finally\<close>. A request that never
  settles leaves the page as \<open>_send\<close> made it.
\<close>

definition throw_of :: "response \<Rightarrow> page \<Rightarrow> page \<times> string option" where
  "throw_of response p = (p, Some (server_error response))"

definition enableEncrypt :: "page \<Rightarrow> page" where
  "enableEncrypt p =
     p\<lparr>disabled := (disabled p)
        (btnEncrypt := \<not> (length (chosenFilesEnc p) \<noteq> 0 \<and> trim (control_value p pwEnc) \<noteq> []))\<rparr>"

definition btnEncrypt_send :: "page \<Rightarrow> page \<times> request" where
  "btnEncrypt_send p =
     (let p1 = p\<lparr>disabled := (disabled p)(btnEncrypt := True)\<rparr>;
          p2 = log enc (rocket @ '' Starting encryption... Uploading files to server.'') p1;
          p3 = setStatus ''Encrypting...'' p2;
          formData =
            [(''password'', Field (trim (control_value p3 pwEnc))),
             (''mode'', Field (control_value p3 aesModeEnc)),
             (''policy'', Field (control_value p3 policyEnc))]
            @ map (\<lambda>f. (''files'', Upload f (name f))) (chosenFilesEnc p3)
      in (p3, \<lparr>url = ''/api/encrypt'', http_method = ''POST'', form = formData\<rparr>))"

definition encrypt_try :: "string + response \<Rightarrow> page \<Rightarrow> page \<times> string option" where
  "encrypt_try fetched p =
     (case fetched of
        Inl m \<Rightarrow> (p, Some m)
      | Inr response \<Rightarrow>
          if \<not> ok response then throw_of response p
          else
            let time = header_time response ''X-Time-Elapsed'';
                p1 = log enc (check_mark @ '' Success! Run complete in '' @ toFixed 4 time @ ''s.'') p
            in (case blob response of
                  Inl m \<Rightarrow> (p1, Some m)
                | Inr b \<Rightarrow>
                    let filename = disposition_filename response ''encrypted.zip'';
                        p2 = log enc (''Package created: '' @ filename) p1;
                        (u, p3) = createObjectURL b p2;
                        link = \<lparr>href = u, download = filename,
                                 textContent = down_arrow @ '' Download '' @ [dquote] @ filename @ [dquote],
                                 className = ''download-link''\<rparr>;
                        p4 = logHTML enc link p3
                    in (setStatus ''Encryption complete.'' p4, None)))"

definition btnEncrypt_receive :: "string + response \<Rightarrow> page \<Rightarrow> page" where
  "btnEncrypt_receive fetched p =
     (let (p1, thrown) = encrypt_try fetched p;
          p2 = (case thrown of
                  None \<Rightarrow> p1
                | Some message \<Rightarrow>
                    setStatus (''Error: '' @ message) (log enc (cross_mark @ '' ERROR: '' @ message) p1))
      in p2\<lparr>disabled := (disabled p2)(btnEncrypt := False)\<rparr>)"

definition enableCompare :: "page \<Rightarrow> page" where
  "enableCompare p =
     p\<lparr>disabled := (disabled p)
        (btnCompare := \<not> (length (chosenFilesCmp p) \<noteq> 0 \<and> trim (control_value p pwCmp) \<noteq> []))\<rparr>"

definition btnCompare_send :: "page \<Rightarrow> page \<times> request" where
  "btnCompare_send p =
     (let p1 = p\<lparr>disabled := (disabled p)(btnCompare := True)\<rparr>;
          p2 = log cmp (rocket @ '' Starting comparison... Uploading files to server.'') p1;
          p3 = setStatus ''Running comparison...'' p2;
          p4 = updateChart (Finite 0) (Finite 0) p3;
          formData =
            [(''password'', Field (trim (control_value p4 pwCmp))),
             (''mode'', Field (control_value p4 aesModeCmp))]
            @ map (\<lambda>f. (''files'', Upload f (name f))) (chosenFilesCmp p4)
      in (p4, \<lparr>url = ''/api/compare'', http_method = ''POST'', form = formData\<rparr>))"

text \<open>
  \<^verbatim>\<open>
  const saved = timeFIFO - timeAI;
  const percent = (timeFIFO > 0) ? (saved / timeFIFO * 100) : 0;
  if (saved > 0.0001) {
      log('cmp', `... AI was ${saved.toFixed(4)}s (${percent.toFixed(1)}%) faster!`);
  } else {
      log('cmp', `... AI was ${Math.abs(saved).toFixed(4)}s slower.`);
  }
  \<close>
\<close>

definition saved_of :: "number \<Rightarrow> number \<Rightarrow> number" where
  "saved_of timeFIFO timeAI = num_sub timeFIFO timeAI"

definition percent_of :: "number \<Rightarrow> number \<Rightarrow> number" where
  "percent_of timeFIFO timeAI =
     (if num_gt timeFIFO (Finite 0)
      then num_mul (num_div (saved_of timeFIFO timeAI) timeFIFO) (Finite 100)
      else Finite 0)"

definition verdict :: "number \<Rightarrow> number \<Rightarrow> string" where
  "verdict timeFIFO timeAI =
     (let saved = saved_of timeFIFO timeAI; percent = percent_of timeFIFO timeAI
      in if num_gt saved (Finite (1 / 10000))
         then trophy @ '' AI was '' @ toFixed 4 saved @ ''s ('' @ toFixed 1 percent @ ''%) faster!''
         else snail @ '' AI was '' @ toFixed 4 (num_abs saved) @ ''s slower.'')"

definition compare_try :: "string + response \<Rightarrow> page \<Rightarrow> page \<times> string option" where
  "compare_try fetched p =
     (case fetched of
        Inl m \<Rightarrow> (p, Some m)
      | Inr response \<Rightarrow>
          if \<not> ok response then throw_of response p
          else
            let p1 = log cmp (check_mark @ '' Comparison complete on server.'') p;
                timeFIFO = header_time response ''X-Time-FIFO'';
                timeAI = header_time response ''X-Time-AI'';
                p2 = log cmp ''--- RESULTS ---'' p1;
                p3 = log cmp (''FIFO (Naive):   '' @ toFixed 4 timeFIFO @ '' seconds'') p2;
                p4 = log cmp (''AI (Priority):  '' @ toFixed 4 timeAI @ '' seconds'') p3;
                p5 = updateChart timeFIFO timeAI p4;
                p6 = log cmp (verdict timeFIFO timeAI) p5
            in (case blob response of
                  Inl m \<Rightarrow> (p6, Some m)
                | Inr b \<Rightarrow>
                    let filename = disposition_filename response ''encrypted_ai.zip'';
                        p7 = log cmp (''AI-Priority package created: '' @ filename) p6;
                        (u, p8) = createObjectURL b p7;
                        link = \<lparr>href = u, download = filename,
                                 textContent = down_arrow @ '' Download AI-Priority Package'',
                                 className = ''download-link''\<rparr>;
                        p9 = logHTML cmp link p8
                    in (setStatus ''Comparison complete.'' p9, None)))"

definition btnCompare_receive :: "string + response \<Rightarrow> page \<Rightarrow> page" where
  "btnCompare_receive fetched p =
     (let (p1, thrown) = compare_try fetched p;
          p2 = (case thrown of
                  None \<Rightarrow> p1
                | Some message \<Rightarrow>
                    setStatus (''Error: '' @ message) (log cmp (cross_mark @ '' ERROR: '' @ message) p1))
      in p2\<lparr>disabled := (disabled p2)(btnCompare := False)\<rparr>)"

definition enableDecrypt :: "page \<Rightarrow> page" where
  "enableDecrypt p =
     p\<lparr>disabled := (disabled p)
        (btnDecrypt := \<not> (length (pkg_files p) \<noteq> 0 \<and> trim (control_value p pwDec) \<noteq> []))\<rparr>"

text \<open>
  \<open>formData.append('file', file)\<close> with \<open>file = $('pkg').files[0]\<close>: with no file
  chosen the value is \<open>undefined\<close>, which the form holds as a string.
\<close>

definition btnDecrypt_send :: "page \<Rightarrow> page \<times> request" where
  "btnDecrypt_send p =
     (let p1 = p\<lparr>disabled := (disabled p)(btnDecrypt := True)\<rparr>;
          p2 = log dec (rocket @ '' Sending package to server for decryption...'') p1;
          p3 = setStatus ''Decrypting...'' p2;
          file = index (pkg_files p3) 0;
          password = trim (control_value p3 pwDec);
          formData =
            [(''file'', (case file of None \<Rightarrow> Field ''undefined'' | Some f \<Rightarrow> Upload f (name f))),
             (''password'', Field password)]
      in (p3, \<lparr>url = ''/api/decrypt'', http_method = ''POST'', form = formData\<rparr>))"

text \<open>
  \<^verbatim>\<open>
  link.href = `/api/download_decrypted/${data.session_id}/${encodeURIComponent(file)}`;
  link.download = file.split('/').pop();
  link.textContent = `... Download "${file}"`;
  link.className = 'download-link';
  \<close>
\<close>

definition or_undefined :: "string option \<Rightarrow> string" where
  "or_undefined v = (case v of None \<Rightarrow> ''undefined'' | Some s \<Rightarrow> s)"

definition decrypt_link :: "json_body \<Rightarrow> string \<Rightarrow> anchor" where
  "decrypt_link data file =
     \<lparr>href = ''/api/download_decrypted/'' @ or_undefined (session_id data) @ ''/''
               @ encodeURIComponent file,
      download = or_undefined (pop (split ''/'' file)),
      textContent = down_arrow @ '' Download '' @ [dquote] @ file @ [dquote],
      className = ''download-link''\<rparr>"

definition no_files_message :: string where
  "no_files_message = check_mark @ '' Decryption complete, but no files were found in the package.''"

definition decrypt_try :: "string + response \<Rightarrow> page \<Rightarrow> page \<times> string option" where
  "decrypt_try fetched p =
     (case fetched of
        Inl m \<Rightarrow> (p, Some m)
      | Inr response \<Rightarrow>
          if \<not> ok response then throw_of response p
          else
            (case json response of
               Inl m \<Rightarrow> (p, Some m)
             | Inr data \<Rightarrow>
                 let p1 =
                       (case files data of
                          None \<Rightarrow> log dec no_files_message p
                        | Some fs \<Rightarrow>
                            if length fs > 0 then
                              foldl (\<lambda>q file. logHTML dec (decrypt_link data file) q)
                                (log dec (check_mark @ '' Success! Server decrypted ''
                                            @ show_nat (length fs) @ '' file(s):'') p)
                                fs
                            else log dec no_files_message p)
                 in (setStatus ''Decryption complete.'' p1, None)))"

definition btnDecrypt_receive :: "string + response \<Rightarrow> page \<Rightarrow> page" where
  "btnDecrypt_receive fetched p =
     (let (p1, thrown) = decrypt_try fetched p;
          p2 = (case thrown of
                  None \<Rightarrow> p1
                | Some message \<Rightarrow>
                    setStatus (''Error: '' @ message) (log dec (cross_mark @ '' ERROR: '' @ message) p1))
      in p2\<lparr>disabled := (disabled p2)(btnDecrypt := False)\<rparr>)"

text \<open>The change and input events of the decrypt tab.\<close>

definition pkg_onchange :: "js_file list \<Rightarrow> page \<Rightarrow> page" where
  "pkg_onchange fs p = enableDecrypt (p\<lparr>pkg_files := fs\<rparr>)"

definition pwDec_oninput :: "string \<Rightarrow> page \<Rightarrow> page" where
  "pwDec_oninput v p = enableDecrypt (p\<lparr>control_value := (control_value p)(pwDec := v)\<rparr>)"

subsection \<open>A page and responses for the examples\<close>

definition blank_page :: page where
  "blank_page =
     \<lparr>disabled = (\<lambda>b. True), logs = (\<lambda>t. []), footer = [], comparisonChart = None,
      control_value = (\<lambda>c. []), chosenFilesEnc = [], chosenFilesCmp = [], pkg_files = [],
      object_urls = [], next_url = 0, timers = [], body_children = [], clicked = []\<rparr>"


definition one_package :: page where
  "one_package =
     blank_page\<lparr>pkg_files := [\<lparr>name = ''a.zip'', content = []\<rparr>],
                control_value := (\<lambda>c. '' pw '')\<rparr>"

definition two_packages :: page where
  "two_packages =
     blank_page\<lparr>pkg_files := [\<lparr>name = ''a.zip'', content = []\<rparr>, \<lparr>name = ''b.zip'', content = []\<rparr>],
                control_value := (\<lambda>c. ''x'')\<rparr>"

definition timed_response :: "string \<Rightarrow> string \<Rightarrow> response" where
  "timed_response h v =
     \<lparr>status = 200, headers_get = (\<lambda>k. if k = h then Some v else None),
      json = Inl ''Unexpected token P in JSON at position 0'', blob = Inr ''PK''\<rparr>"










subsection \<open>White space at the ends of a string\<close>

text \<open>
  A string that is white space only, one that starts with a white-space character and
  one that ends with one.
\<close>

definition white :: "string \<Rightarrow> bool" where
  "white s \<longleftrightarrow> trimStart s = []"

definition starts_white :: "string \<Rightarrow> bool" where
  "starts_white s \<longleftrightarrow> strip_one white_space s \<noteq> None"

definition ends_white :: "string \<Rightarrow> bool" where
  "ends_white s \<longleftrightarrow> strip_one (map rev white_space) (rev s) \<noteq> None"

text \<open>A sequence of white-space characters, one after the other.\<close>

inductive ws_run :: "string \<Rightarrow> bool" where
  ws_nil: "ws_run []"
| ws_cons: "t \<in> set white_space \<Longrightarrow> ws_run s \<Longrightarrow> ws_run (t @ s)"

text \<open>
  A continuation byte of UTF-8 (\<open>0x80\<close> to \<open>0xBF\<close>): no character starts with one, and
  every byte of a character after its first is one.
\<close>

definition continuation :: "char \<Rightarrow> bool" where
  "continuation c \<longleftrightarrow> (of_char c :: nat) div 64 = 2"

subsection \<open>Reading a rendered size back\<close>

text \<open>
  The quantity and the unit of a text such as \<open>1.5 KB\<close>: the number at its front, as
  \<open>parseFloat\<close> reads it, and the number of bytes of the unit at its end.
\<close>

definition ends_with :: "string \<Rightarrow> string \<Rightarrow> bool" where
  "ends_with s t \<longleftrightarrow> starts_with (rev s) (rev t)"

definition unit_bytes :: "string \<Rightarrow> nat option" where
  "unit_bytes s =
     (if ends_with s '' KB'' then Some 1024
      else if ends_with s '' MB'' then Some (1024 ^ 2)
      else if ends_with s '' GB'' then Some (1024 ^ 3)
      else if ends_with s '' B'' then Some 1
      else None)"

definition rendered :: "string \<Rightarrow> (rat \<times> nat) option" where
  "rendered s =
     (case parseFloat s of
        Finite q \<Rightarrow> (case unit_bytes s of Some u \<Rightarrow> Some (q, u) | None \<Rightarrow> None)
      | _ \<Rightarrow> None)"

text \<open>The unit that \<open>fmtBytes\<close> chooses for a byte count, in bytes, and the quantity it prints.\<close>

definition unit_of :: "nat \<Rightarrow> nat" where
  "unit_of n =
     (if n < 1024 then 1 else if n < 1024 ^ 2 then 1024
      else if n < 1024 ^ 3 then 1024 ^ 2 else 1024 ^ 3)"

definition quantity_of :: "nat \<Rightarrow> rat" where
  "quantity_of n =
     (if n < 1024 then of_nat n else of_nat (nearest 1 (of_nat n / of_nat (unit_of n))) / 10)"

section \<open>Properties\<close>

subsection \<open>Basic facts and rules for evaluation\<close>

lemmas trim_eval = trim_def trimStart_def trimEnd_def strip_all.simps white_space_def

lemma floor_rat_numeral [simp]:
  "\<lfloor>(numeral a / numeral b :: rat)\<rfloor> = numeral a div numeral b"
  using floor_divide_of_int_eq [of "numeral a" "numeral b", where ?'a = rat] by simp

lemma replicate_unfold: "0 < n \<Longrightarrow> replicate n c = c # replicate (n - 1) c"
  by (cases n) simp_all

lemmas fixed_eval = nearest_def fixed_def pad_zeros_def show_nat.simps digit_char_def
  replicate_unfold

lemmas parse_eval = parseFloat_def unsigned_literal_def exponent_def scale10_def read_nat_def
  digit_val_def is_digit_def trimStart_def strip_all.simps white_space_def


lemma show_nat_not_Nil [simp]: "show_nat n \<noteq> []"
  by (simp add: show_nat.simps [of n])

lemma starts_with_refl [simp]: "starts_with t t"
  by (induction t) simp_all

lemma strip_one_Nil [simp]: "strip_one ts [] = None"
proof (induction ts)
  case Nil
  show ?case by simp
next
  case (Cons t ts)
  then show ?case by (cases t) simp_all
qed

lemma trimStart_Nil [simp]: "trimStart [] = []"
  by (simp add: trimStart_def strip_all.simps)

lemma split_not_Nil [simp]: "split sep s \<noteq> []"
  by (induction s) (auto simp: split.simps(2) split: list.splits)

lemma log_text_log [simp]:
  "log_text t (log t' m p) = (if t = t' then log_text t p @ m @ [newline] else log_text t p)"
  by (simp add: log_text_def log_def)

lemma log_text_logHTML [simp]:
  "log_text t (logHTML t' a p) = (if t = t' then log_text t p @ textContent a else log_text t p)"
  by (simp add: log_text_def logHTML_def)

lemma log_text_setStatus [simp]: "log_text t (setStatus s p) = log_text t p"
  by (simp add: log_text_def setStatus_def)

lemma log_text_updateChart [simp]: "log_text t (updateChart f a p) = log_text t p"
  by (simp add: log_text_def updateChart_def initChart_def)

lemma log_text_createObjectURL [simp]: "log_text t (snd (createObjectURL b p)) = log_text t p"
  by (simp add: log_text_def createObjectURL_def Let_def)

lemma log_text_disabled [simp]: "log_text t (p\<lparr>disabled := d\<rparr>) = log_text t p"
  by (simp add: log_text_def)

lemma log_text_blank [simp]: "log_text t blank_page = []"
  by (simp add: log_text_def blank_page_def)

subsection \<open>The trigger of a workflow\<close>

text \<open>
  C8. For each of the three triggers: the part of the handler that runs at once leaves
  the trigger disabled, and the part that runs when the request has settled leaves it
  enabled, whatever the page it resumes on and however the request settled: \<open>fetch\<close>
  rejected, a response of any status, a body that \<open>json()\<close> or \<open>blob()\<close> rejects.
\<close>

theorem trigger_reenabled:
  "disabled (fst (btnEncrypt_send p)) btnEncrypt
   \<and> \<not> disabled (btnEncrypt_receive fetched q) btnEncrypt
   \<and> disabled (fst (btnCompare_send p)) btnCompare
   \<and> \<not> disabled (btnCompare_receive fetched q) btnCompare
   \<and> disabled (fst (btnDecrypt_send p)) btnDecrypt
   \<and> \<not> disabled (btnDecrypt_receive fetched q) btnDecrypt"
proof -
  have send: "disabled (fst (btnEncrypt_send p)) btnEncrypt"
    "disabled (fst (btnCompare_send p)) btnCompare"
    "disabled (fst (btnDecrypt_send p)) btnDecrypt"
    by (simp_all add: btnEncrypt_send_def btnCompare_send_def btnDecrypt_send_def Let_def
        log_def setStatus_def updateChart_def initChart_def)
  have recv: "\<not> disabled (btnEncrypt_receive fetched q) btnEncrypt"
    "\<not> disabled (btnCompare_receive fetched q) btnCompare"
    "\<not> disabled (btnDecrypt_receive fetched q) btnDecrypt"
    by (simp_all add: btnEncrypt_receive_def btnCompare_receive_def btnDecrypt_receive_def
        split_def Let_def)
  from send recv show ?thesis by simp
qed

subsection \<open>Evaluating \<open>trim\<close>\<close>

lemma trim_x: "trim ''x'' = ''x''"
  by (simp add: trim_eval)

lemma trim_pw: "trim '' pw '' = ''pw''"
  by (simp add: trim_eval)

subsection \<open>When the decrypt trigger is enabled\<close>

text \<open>
  C3, as stated, asks for exactly one package file. \<open>enableDecrypt\<close> tests that the
  number of files is not zero: with two files chosen and the password \<open>x\<close> the trigger
  is enabled.
\<close>

theorem enableDecrypt_two_files:
  "\<not> disabled (enableDecrypt two_packages) btnDecrypt
   \<and> length (pkg_files two_packages) = 2
   \<and> trim (control_value two_packages pwDec) = ''x''"
  by (simp add: enableDecrypt_def two_packages_def blank_page_def trim_x)

text \<open>
  C3, amended. After \<open>enableDecrypt\<close>, which runs on every change of the file input
  and on every input to the password field, the decrypt trigger is enabled if and only
  if at least one package file is chosen and the password, trimmed, is not empty. For a
  file input that holds at most one file, that is: exactly one package file is chosen
  and the password, trimmed, is not empty.
\<close>

theorem enableDecrypt_enabled:
  "(\<not> disabled (enableDecrypt p) btnDecrypt
      \<longleftrightarrow> 1 \<le> length (pkg_files p) \<and> trim (control_value p pwDec) \<noteq> [])
   \<and> (length (pkg_files p) \<le> 1 \<longrightarrow>
        (\<not> disabled (enableDecrypt p) btnDecrypt
           \<longleftrightarrow> length (pkg_files p) = 1 \<and> trim (control_value p pwDec) \<noteq> []))
   \<and> (\<not> disabled (pkg_onchange fs p) btnDecrypt
        \<longleftrightarrow> 1 \<le> length fs \<and> trim (control_value p pwDec) \<noteq> [])
   \<and> (\<not> disabled (pwDec_oninput v p) btnDecrypt
        \<longleftrightarrow> 1 \<le> length (pkg_files p) \<and> trim v \<noteq> [])"
proof -
  have a: "\<not> disabled (enableDecrypt q) btnDecrypt
      \<longleftrightarrow> 1 \<le> length (pkg_files q) \<and> trim (control_value q pwDec) \<noteq> []" for q
    by (cases "pkg_files q") (simp_all add: enableDecrypt_def)
  have b: "length (pkg_files p) \<le> 1 \<Longrightarrow>
      (1 \<le> length (pkg_files p)) = (length (pkg_files p) = 1)"
    by arith
  show ?thesis
    using b by (simp add: a pkg_onchange_def pwDec_oninput_def)
qed

theorem enableDecrypt_enabled_witness:
  "length (pkg_files one_package) \<le> 1
   \<and> \<not> disabled (enableDecrypt one_package) btnDecrypt
   \<and> length (pkg_files one_package) = 1
   \<and> trim (control_value one_package pwDec) = ''pw''"
  using enableDecrypt_enabled [of one_package]
  by (simp add: one_package_def blank_page_def trim_pw)

lemma compare_log:
  assumes "ok r"
  shows "\<exists>rest. log_text cmp (btnCompare_receive (Inr r) p) =
     log_text cmp p @ check_mark @ '' Comparison complete on server.'' @ [newline]
     @ ''--- RESULTS ---'' @ [newline]
     @ ''FIFO (Naive):   '' @ toFixed 4 (header_time r ''X-Time-FIFO'') @ '' seconds'' @ [newline]
     @ ''AI (Priority):  '' @ toFixed 4 (header_time r ''X-Time-AI'') @ '' seconds'' @ [newline]
     @ verdict (header_time r ''X-Time-FIFO'') (header_time r ''X-Time-AI'') @ [newline] @ rest"
  using assms
  by (cases "blob r")
     (simp_all add: btnCompare_receive_def compare_try_def Let_def split_def)

lemma encrypt_log:
  assumes "ok r"
  shows "\<exists>rest. log_text enc (btnEncrypt_receive (Inr r) p) =
     log_text enc p @ check_mark @ '' Success! Run complete in ''
     @ toFixed 4 (header_time r ''X-Time-Elapsed'') @ ''s.'' @ [newline] @ rest"
  using assms
  by (cases "blob r")
     (simp_all add: btnEncrypt_receive_def encrypt_try_def Let_def split_def)

subsection \<open>Time saved\<close>





lemma parse_0: "parseFloat ''0'' = Finite 0" by (simp add: parse_eval)
lemma parse_abc: "parseFloat ''abc'' = NaN" by (simp add: parse_eval)



subsection \<open>Elapsed times from the headers\<close>

lemma parse_no_number:
  assumes "trimStart v = c # s" and "c \<notin> set ''0123456789+-.I''"
  shows "parseFloat v = NaN"
  using assms by (simp add: parseFloat_def unsigned_literal_def is_digit_def)

lemma header_time_abc:
  "header_time (timed_response ''X-Time-Elapsed'' ''abc'') ''X-Time-Elapsed'' = NaN"
  by (simp add: header_time_def timed_response_def or_default_def parse_abc)

text \<open>
  C4, as stated, has the elapsed time default to 0 when the header's value does not
  parse. The handlers replace only a missing or empty header by \<open>'0'\<close>: the value
  \<open>abc\<close> is handed to \<open>parseFloat\<close>, the time is NaN, and the log reads \<open>NaNs\<close>.
\<close>

theorem header_time_unparsable:
  "ok (timed_response ''X-Time-Elapsed'' ''abc'')
   \<and> headers_get (timed_response ''X-Time-Elapsed'' ''abc'') ''X-Time-Elapsed'' = Some ''abc''
   \<and> header_time (timed_response ''X-Time-Elapsed'' ''abc'') ''X-Time-Elapsed'' = NaN
   \<and> header_time (timed_response ''X-Time-Elapsed'' ''abc'') ''X-Time-Elapsed'' \<noteq> Finite 0
   \<and> log_text enc (btnEncrypt_receive (Inr (timed_response ''X-Time-Elapsed'' ''abc'')) blank_page)
       = check_mark @ '' Success! Run complete in NaNs.'' @ [newline]
         @ ''Package created: encrypted.zip'' @ [newline]
         @ down_arrow @ '' Download '' @ [dquote] @ ''encrypted.zip'' @ [dquote]"
proof -
  let ?r = "timed_response ''X-Time-Elapsed'' ''abc''"
  have k: "ok ?r"
    by (simp add: ok_def timed_response_def)
  have h: "headers_get ?r ''X-Time-Elapsed'' = Some ''abc''"
    by (simp add: timed_response_def)
  have b: "blob ?r = Inr ''PK''"
    by (simp add: timed_response_def)
  have f: "disposition_filename ?r ''encrypted.zip'' = ''encrypted.zip''"
    by (simp add: disposition_filename_def timed_response_def)
  have "log_text enc (btnEncrypt_receive (Inr ?r) blank_page)
       = check_mark @ '' Success! Run complete in NaNs.'' @ [newline]
         @ ''Package created: encrypted.zip'' @ [newline]
         @ down_arrow @ '' Download '' @ [dquote] @ ''encrypted.zip'' @ [dquote]"
    using k b
    by (simp add: btnEncrypt_receive_def encrypt_try_def Let_def split_def header_time_abc f)
  with k h show ?thesis
    by (simp add: header_time_abc)
qed

text \<open>
  C4, amended. The elapsed time that the encrypt handler reads from \<open>X-Time-Elapsed\<close>,
  and each of the two that the compare handler reads from \<open>X-Time-FIFO\<close> and
  \<open>X-Time-AI\<close>, is 0 when the header is absent or empty; for a header with a value
  that is not empty it is \<open>parseFloat\<close> of the value, which is NaN when the value,
  after its leading white space, starts with none of a digit, a sign, a point and
  \<open>I\<close>. That number is what the handler prints with four decimals.
\<close>

theorem header_time_default:
  "((headers_get r h = None \<or> headers_get r h = Some []) \<longrightarrow> header_time r h = Finite 0)
   \<and> (\<forall>v. headers_get r h = Some v \<and> v \<noteq> [] \<longrightarrow> header_time r h = parseFloat v)
   \<and> (\<forall>v c s. headers_get r h = Some v \<and> trimStart v = c # s
          \<and> c \<notin> set ''0123456789+-.I'' \<longrightarrow> header_time r h = NaN)
   \<and> (ok r \<longrightarrow>
        (\<exists>rest. log_text enc (btnEncrypt_receive (Inr r) p) =
           log_text enc p @ check_mark @ '' Success! Run complete in ''
           @ toFixed 4 (header_time r ''X-Time-Elapsed'') @ ''s.'' @ [newline] @ rest))
   \<and> (ok r \<longrightarrow>
        (\<exists>rest. log_text cmp (btnCompare_receive (Inr r) p) =
           log_text cmp p @ check_mark @ '' Comparison complete on server.'' @ [newline]
           @ ''--- RESULTS ---'' @ [newline]
           @ ''FIFO (Naive):   '' @ toFixed 4 (header_time r ''X-Time-FIFO'') @ '' seconds'' @ [newline]
           @ ''AI (Priority):  '' @ toFixed 4 (header_time r ''X-Time-AI'') @ '' seconds'' @ [newline]
           @ rest))"
proof -
  have a: "(headers_get r h = None \<or> headers_get r h = Some []) \<longrightarrow> header_time r h = Finite 0"
    by (auto simp: header_time_def or_default_def parse_0)
  have b: "\<forall>v. headers_get r h = Some v \<and> v \<noteq> [] \<longrightarrow> header_time r h = parseFloat v"
    by (simp add: header_time_def or_default_def)
  have c: "\<forall>v c s. headers_get r h = Some v \<and> trimStart v = c # s
          \<and> c \<notin> set ''0123456789+-.I'' \<longrightarrow> header_time r h = NaN"
  proof (intro allI impI)
    fix v c s
    assume h: "headers_get r h = Some v \<and> trimStart v = c # s \<and> c \<notin> set ''0123456789+-.I''"
    then have "v \<noteq> []"
      by auto
    with h b have "header_time r h = parseFloat v" by simp
    with h show "header_time r h = NaN"
      using parse_no_number [of v c s] by simp
  qed
  have d: "ok r \<longrightarrow>
        (\<exists>rest. log_text cmp (btnCompare_receive (Inr r) p) =
           log_text cmp p @ check_mark @ '' Comparison complete on server.'' @ [newline]
           @ ''--- RESULTS ---'' @ [newline]
           @ ''FIFO (Naive):   '' @ toFixed 4 (header_time r ''X-Time-FIFO'') @ '' seconds'' @ [newline]
           @ ''AI (Priority):  '' @ toFixed 4 (header_time r ''X-Time-AI'') @ '' seconds'' @ [newline]
           @ rest)"
  proof
    assume "ok r"
    from compare_log [OF this, of p] obtain rest where
      e: "log_text cmp (btnCompare_receive (Inr r) p) =
     log_text cmp p @ check_mark @ '' Comparison complete on server.'' @ [newline]
     @ ''--- RESULTS ---'' @ [newline]
     @ ''FIFO (Naive):   '' @ toFixed 4 (header_time r ''X-Time-FIFO'') @ '' seconds'' @ [newline]
     @ ''AI (Priority):  '' @ toFixed 4 (header_time r ''X-Time-AI'') @ '' seconds'' @ [newline]
     @ verdict (header_time r ''X-Time-FIFO'') (header_time r ''X-Time-AI'') @ [newline] @ rest"
      by blast
    show "\<exists>rest. log_text cmp (btnCompare_receive (Inr r) p) =
           log_text cmp p @ check_mark @ '' Comparison complete on server.'' @ [newline]
           @ ''--- RESULTS ---'' @ [newline]
           @ ''FIFO (Naive):   '' @ toFixed 4 (header_time r ''X-Time-FIFO'') @ '' seconds'' @ [newline]
           @ ''AI (Priority):  '' @ toFixed 4 (header_time r ''X-Time-AI'') @ '' seconds'' @ [newline]
           @ rest"
      by (rule exI [of _ "verdict (header_time r ''X-Time-FIFO'') (header_time r ''X-Time-AI'') @ [newline] @ rest"])
         (simp add: e)
  qed
  from a b c d encrypt_log [of r p] show ?thesis by blast
qed

theorem header_time_default_witness:
  "headers_get (timed_response ''X-Time-Elapsed'' ''0.25'') ''X-Time-FIFO'' = None
   \<and> header_time (timed_response ''X-Time-Elapsed'' ''0.25'') ''X-Time-FIFO'' = Finite 0
   \<and> headers_get (timed_response ''X-Time-Elapsed'' ''0.25'') ''X-Time-Elapsed'' = Some ''0.25''
   \<and> header_time (timed_response ''X-Time-Elapsed'' ''0.25'') ''X-Time-Elapsed'' = Finite (1 / 4)
   \<and> headers_get (timed_response ''X-Time-AI'' ''abc'') ''X-Time-AI'' = Some ''abc''
   \<and> trimStart ''abc'' = CHR ''a'' # ''bc''
   \<and> CHR ''a'' \<notin> set ''0123456789+-.I''
   \<and> header_time (timed_response ''X-Time-AI'' ''abc'') ''X-Time-AI'' = NaN
   \<and> ok (timed_response ''X-Time-Elapsed'' ''0.25'')
   \<and> (\<exists>rest. log_text enc
          (btnEncrypt_receive (Inr (timed_response ''X-Time-Elapsed'' ''0.25'')) blank_page)
        = check_mark @ '' Success! Run complete in 0.2500s.'' @ [newline] @ rest)"
proof -
  let ?r = "timed_response ''X-Time-Elapsed'' ''0.25''"
  let ?s = "timed_response ''X-Time-AI'' ''abc''"
  have 1: "headers_get ?r ''X-Time-FIFO'' = None"
    and 2: "headers_get ?r ''X-Time-Elapsed'' = Some ''0.25''"
    and 5: "headers_get ?s ''X-Time-AI'' = Some ''abc''"
    by (simp_all add: timed_response_def)
  have 3: "parseFloat ''0.25'' = Finite (1 / 4)"
    by (simp add: parse_eval)
  have 6: "trimStart ''abc'' = CHR ''a'' # ''bc''" "CHR ''a'' \<notin> set ''0123456789+-.I''"
    by (simp_all add: trimStart_def strip_all.simps white_space_def)
  have k: "ok ?r"
    by (simp add: ok_def timed_response_def)
  from header_time_default [of ?r "''X-Time-FIFO''"] 1
  have 4: "header_time ?r ''X-Time-FIFO'' = Finite 0" by blast
  from header_time_default [of ?r "''X-Time-Elapsed''"] 2
  have "header_time ?r ''X-Time-Elapsed'' = parseFloat ''0.25''" by blast
  with 3 have 7: "header_time ?r ''X-Time-Elapsed'' = Finite (1 / 4)" by simp
  from header_time_default [of ?s "''X-Time-AI''"] 5 6
  have 8: "header_time ?s ''X-Time-AI'' = NaN" by blast
  from header_time_default [of ?r "''X-Time-Elapsed''" blank_page] k
  obtain rest where "log_text enc (btnEncrypt_receive (Inr ?r) blank_page) =
           log_text enc blank_page @ check_mark @ '' Success! Run complete in ''
           @ toFixed 4 (header_time ?r ''X-Time-Elapsed'') @ ''s.'' @ [newline] @ rest"
    by blast
  then have "log_text enc (btnEncrypt_receive (Inr ?r) blank_page)
        = check_mark @ '' Success! Run complete in 0.2500s.'' @ [newline] @ rest"
    by (simp add: 7 fixed_eval)
  then have 9: "\<exists>rest. log_text enc (btnEncrypt_receive (Inr ?r) blank_page)
        = check_mark @ '' Success! Run complete in 0.2500s.'' @ [newline] @ rest"
    by (rule exI)
  from 1 2 4 5 6 7 8 9 k show ?thesis by (intro conjI)
qed

subsection \<open>The message of a failed request\<close>






subsection \<open>The life of an object URL\<close>













subsection \<open>The file name of the package\<close>

lemma starts_with_same: "starts_with (sep @ rest) sep"
  by (induction sep) simp_all











subsection \<open>The links of a decrypted package\<close>













subsection \<open>What \<open>trim\<close> removes\<close>

lemma starts_with_drop: "starts_with s t \<Longrightarrow> s = t @ drop (length t) s"
  by (induction s t rule: starts_with.induct) simp_all

lemma starts_with_append: "starts_with s t \<Longrightarrow> starts_with (s @ x) t"
  by (induction s t rule: starts_with.induct) simp_all

lemma strip_one_Some:
  "strip_one ts s = Some r \<Longrightarrow> \<exists>t\<in>set ts. t \<noteq> [] \<and> starts_with s t \<and> s = t @ r"
  by (induction ts) (auto split: if_splits dest: starts_with_drop)

lemma strip_one_None: "strip_one ts s = None \<longleftrightarrow> (\<forall>t\<in>set ts. t \<noteq> [] \<longrightarrow> \<not> starts_with s t)"
  by (induction ts) auto

lemma strip_all_fixed: "strip_one ts (strip_all ts s) = None"
proof (induction ts s rule: strip_all.induct)
  case (1 ts s)
  then show ?case
    by (cases "strip_one ts s") (simp_all add: strip_all.simps [of ts s])
qed

lemma strip_all_suffix: "\<exists>w. s = w @ strip_all ts s"
proof (induction ts s rule: strip_all.induct)
  case (1 ts s)
  show ?case
  proof (cases "strip_one ts s")
    case None
    then show ?thesis by (simp add: strip_all.simps [of ts s])
  next
    case (Some r)
    from strip_one_Some [OF Some] obtain t where "s = t @ r" by blast
    moreover from 1 Some obtain w where "r = w @ strip_all ts r" by blast
    ultimately have "s = (t @ w) @ strip_all ts r" by simp
    moreover have "strip_all ts s = strip_all ts r"
      using Some by (simp add: strip_all.simps [of ts s])
    ultimately have "s = (t @ w) @ strip_all ts s" by simp
    then show ?thesis by blast
  qed
qed

lemma trimStart_run: "\<exists>w. ws_run w \<and> s = w @ trimStart s"
  unfolding trimStart_def
proof (induction white_space s rule: strip_all.induct)
  case (1 s)
  show ?case
  proof (cases "strip_one white_space s")
    case None
    then have "s = [] @ strip_all white_space s" by (simp add: strip_all.simps [of _ s])
    with ws_nil show ?thesis by blast
  next
    case (Some r)
    from strip_one_Some [OF Some] obtain t where t: "t \<in> set white_space" "s = t @ r" by blast
    from 1 Some obtain w where w: "ws_run w" "r = w @ strip_all white_space r" by blast
    from t w have "ws_run (t @ w)" by (simp add: ws_cons)
    moreover from t w have "s = (t @ w) @ strip_all white_space r" by simp
    moreover have "strip_all white_space s = strip_all white_space r"
      using Some by (simp add: strip_all.simps [of _ s])
    ultimately have "ws_run (t @ w) \<and> s = (t @ w) @ strip_all white_space s" by simp
    then show ?thesis by blast
  qed
qed

lemma white_run: "white s \<Longrightarrow> ws_run s"
  using trimStart_run [of s] by (auto simp: white_def)

lemma tokens_prefix_free:
  "\<forall>t\<in>set white_space. \<forall>t'\<in>set white_space. starts_with t t' \<longrightarrow> t = t'"
  by (simp add: white_space_def)

lemma tokens_shape:
  "\<forall>t\<in>set white_space. t \<noteq> [] \<and> \<not> continuation (hd t) \<and> (\<forall>b\<in>set (tl t). continuation b)"
  by (simp add: white_space_def continuation_def)

lemma rev_tokens_prefix_free:
  "\<forall>t\<in>set (map rev white_space). \<forall>t'\<in>set (map rev white_space). starts_with t t' \<longrightarrow> t = t'"
  by (simp add: white_space_def)

lemma rev_tokens_nonempty: "\<forall>t\<in>set (map rev white_space). t \<noteq> []"
  by (simp add: white_space_def)

lemma starts_with_comparable:
  "starts_with (t @ x) t' \<Longrightarrow> starts_with t t' \<or> starts_with t' t"
  by (induction t t' rule: starts_with.induct) simp_all

lemma strip_one_the_token:
  assumes "t \<in> set ts" and "t \<noteq> []"
    and "\<forall>t'\<in>set ts. t' \<noteq> [] \<and> starts_with (t @ x) t' \<longrightarrow> t' = t"
  shows "strip_one ts (t @ x) = Some x"
  using assms
proof (induction ts)
  case Nil
  then show ?case by simp
next
  case (Cons a ts)
  show ?case
  proof (cases "a \<noteq> [] \<and> starts_with (t @ x) a")
    case True
    with Cons.prems have "a = t" by simp
    with True show ?thesis by simp
  next
    case False
    with Cons.prems have "t \<in> set ts"
      using starts_with_same [of t x] by auto
    with Cons False show ?thesis by auto
  qed
qed

lemma code_strips:
  assumes free: "\<forall>t\<in>set ts. \<forall>t'\<in>set ts. starts_with t t' \<longrightarrow> t = t'"
    and ne: "\<forall>t\<in>set ts. t \<noteq> []"
    and t: "t \<in> set ts"
  shows "strip_one ts (t @ x) = Some x"
proof (rule strip_one_the_token [OF t])
  from ne t show "t \<noteq> []" by simp
  show "\<forall>t'\<in>set ts. t' \<noteq> [] \<and> starts_with (t @ x) t' \<longrightarrow> t' = t"
  proof (intro ballI impI)
    fix t'
    assume m: "t' \<in> set ts" and "t' \<noteq> [] \<and> starts_with (t @ x) t'"
    then have "starts_with t t' \<or> starts_with t' t"
      using starts_with_comparable by blast
    with free m t show "t' = t" by auto
  qed
qed

lemma token_stripped:
  "t \<in> set white_space \<Longrightarrow> strip_one white_space (t @ x) = Some x"
  using tokens_prefix_free tokens_shape by (intro code_strips) auto

lemma rev_token_stripped:
  "t \<in> set white_space \<Longrightarrow> strip_one (map rev white_space) (rev t @ x) = Some x"
  using rev_tokens_prefix_free rev_tokens_nonempty by (intro code_strips) auto

lemma run_stripped: "ws_run l \<Longrightarrow> strip_all white_space (l @ x) = strip_all white_space x"
proof (induction rule: ws_run.induct)
  case ws_nil
  show ?case by simp
next
  case (ws_cons t s)
  have "strip_all white_space (t @ (s @ x)) = strip_all white_space (s @ x)"
    using token_stripped [OF ws_cons(1), of "s @ x"]
    by (simp add: strip_all.simps [of _ "t @ s @ x"])
  with ws_cons show ?case by simp
qed

lemma rev_run_stripped:
  "ws_run r \<Longrightarrow>
     strip_all (map rev white_space) (rev r @ y) = strip_all (map rev white_space) y"
proof (induction arbitrary: y rule: ws_run.induct)
  case ws_nil
  show ?case by simp
next
  case (ws_cons t s)
  have "strip_all (map rev white_space) (rev (t @ s) @ y)
      = strip_all (map rev white_space) (rev s @ (rev t @ y))"
    by simp
  also have "\<dots> = strip_all (map rev white_space) (rev t @ y)"
    by (rule ws_cons.IH)
  also have "\<dots> = strip_all (map rev white_space) y"
    using rev_token_stripped [OF ws_cons(1), of y]
    by (simp add: strip_all.simps [of _ "rev t @ y"])
  finally show ?case .
qed

lemma starts_with_across:
  "starts_with (c @ r) t \<Longrightarrow>
     starts_with c t \<or> (\<exists>x. x \<noteq> [] \<and> t = c @ x \<and> starts_with r x)"
proof (induction c t rule: starts_with.induct)
  case (1 s)
  show ?case by simp
next
  case (2 p ps)
  then show ?case by auto
next
  case (3 c cs p ps)
  then show ?case by auto
qed

lemma starts_with_hd: "starts_with r x \<Longrightarrow> x \<noteq> [] \<Longrightarrow> r \<noteq> [] \<and> hd r = hd x"
  by (cases r; cases x) simp_all

lemma run_not_continuation: "ws_run r \<Longrightarrow> r \<noteq> [] \<Longrightarrow> \<not> continuation (hd r)"
proof (induction rule: ws_run.induct)
  case ws_nil
  then show ?case by simp
next
  case (ws_cons t s)
  with tokens_shape have "t \<noteq> [] \<and> \<not> continuation (hd t)" by blast
  then show ?case by simp
qed

lemma no_token_across:
  assumes "strip_one white_space c = None" and "c \<noteq> []" and "ws_run r"
  shows "strip_one white_space (c @ r) = None"
proof -
  have "\<not> starts_with (c @ r) t" if t: "t \<in> set white_space" for t
  proof
    assume "starts_with (c @ r) t"
    then consider "starts_with c t" | x where "x \<noteq> []" "t = c @ x" "starts_with r x"
      using starts_with_across by blast
    then show False
    proof cases
      case 1
      with assms(1) t tokens_shape show False
        by (auto simp: strip_one_None)
    next
      case 2
      from 2(1,2) assms(2) have "hd x \<in> set (tl t)"
        by (cases c) simp_all
      with t tokens_shape have "continuation (hd x)" by blast
      moreover from 2(1,3) have "r \<noteq> [] \<and> hd r = hd x" by (rule starts_with_hd [rotated])
      moreover note run_not_continuation [OF assms(3)]
      ultimately show False by simp
    qed
  qed
  then show ?thesis by (simp add: strip_one_None)
qed

lemma strip_all_None: "strip_one ts s = None \<Longrightarrow> strip_all ts s = s"
  by (simp add: strip_all.simps [of ts s])

lemma trim_surrounded:
  assumes l: "white l" and r: "white r"
  shows "trim (l @ v @ r) = trim v"
proof -
  from l r have rl: "ws_run l" and rr: "ws_run r"
    by (simp_all add: white_run)
  from trimStart_run [of v] obtain w where w: "ws_run w" "v = w @ trimStart v"
    by blast
  let ?c = "trimStart v"
  have 1: "trimStart (l @ v @ r) = trimStart (?c @ r)"
  proof -
    have e: "v @ r = w @ (?c @ r)"
      using w(2) by simp
    have "trimStart (l @ (v @ r)) = trimStart (v @ r)"
      using run_stripped [OF rl] by (simp add: trimStart_def)
    also have "\<dots> = trimStart (w @ (?c @ r))"
      by (simp only: e)
    also have "\<dots> = trimStart (?c @ r)"
      using run_stripped [OF w(1)] by (simp add: trimStart_def)
    finally show ?thesis by simp
  qed
  show ?thesis
  proof (cases "?c = []")
    case True
    with r have "trimStart (?c @ r) = []"
      by (simp add: white_def)
    with 1 True show ?thesis
      by (simp add: trim_def)
  next
    case False
    have "strip_one white_space ?c = None"
      by (simp add: trimStart_def strip_all_fixed)
    with False rr have "strip_one white_space (?c @ r) = None"
      by (intro no_token_across)
    then have "trimStart (?c @ r) = ?c @ r"
      unfolding trimStart_def by (rule strip_all_None)
    with 1 have "trim (l @ v @ r) = trimEnd (?c @ r)"
      by (simp add: trim_def)
    also have "\<dots> = trimEnd ?c"
      using rev_run_stripped [OF rr, of "rev ?c"] by (simp add: trimEnd_def)
    finally show ?thesis by (simp add: trim_def)
  qed
qed

lemma trim_end_clean: "\<not> ends_white (trim v)"
  by (simp add: ends_white_def trim_def trimEnd_def strip_all_fixed)

lemma trim_start_clean: "\<not> starts_white (trim v)"
proof -
  let ?c = "trimStart v"
  have c: "strip_one white_space ?c = None"
    by (simp add: trimStart_def strip_all_fixed)
  from strip_all_suffix [of "rev ?c" "map rev white_space"] obtain w
    where "rev ?c = w @ strip_all (map rev white_space) (rev ?c)"
    by blast
  then have "rev (rev ?c) = rev (w @ strip_all (map rev white_space) (rev ?c))"
    by simp
  then have e: "?c = trim v @ rev w"
    by (simp add: trim_def trimEnd_def)
  have "\<not> starts_with (trim v) t" if "t \<in> set white_space" "t \<noteq> []" for t
  proof
    assume "starts_with (trim v) t"
    then have "starts_with (trim v @ rev w) t" by (rule starts_with_append)
    with e have "starts_with ?c t" by simp
    with c that show False by (auto simp: strip_one_None)
  qed
  then show ?thesis
    by (simp add: starts_white_def strip_one_None)
qed

lemma white_examples: "white ''  ''" "white [CHR 0x09, CHR 0xC2, CHR 0xA0]" "white [newline]"
  by (simp_all add: white_def trimStart_def strip_all.simps white_space_def newline_def)

text \<open>
  C10. In the request of each of the three workflows the one \<open>password\<close> entry of
  the form is the value of the password field, trimmed. The trimmed value neither
  starts nor ends with a white-space character. Two values of the field that differ
  only in the white space around them give the same trimmed value, and the requests
  built from them are equal.
\<close>

theorem password_trimmed:
  "filter (\<lambda>e. fst e = ''password'') (form (snd (btnEncrypt_send p)))
     = [(''password'', Field (trim (control_value p pwEnc)))]
   \<and> filter (\<lambda>e. fst e = ''password'') (form (snd (btnCompare_send p)))
     = [(''password'', Field (trim (control_value p pwCmp)))]
   \<and> filter (\<lambda>e. fst e = ''password'') (form (snd (btnDecrypt_send p)))
     = [(''password'', Field (trim (control_value p pwDec)))]
   \<and> \<not> starts_white (trim v) \<and> \<not> ends_white (trim v)
   \<and> (white l \<and> white r \<longrightarrow>
        trim (l @ v @ r) = trim v
        \<and> snd (btnEncrypt_send (p\<lparr>control_value := (control_value p)(pwEnc := l @ v @ r)\<rparr>))
          = snd (btnEncrypt_send (p\<lparr>control_value := (control_value p)(pwEnc := v)\<rparr>))
        \<and> snd (btnCompare_send (p\<lparr>control_value := (control_value p)(pwCmp := l @ v @ r)\<rparr>))
          = snd (btnCompare_send (p\<lparr>control_value := (control_value p)(pwCmp := v)\<rparr>))
        \<and> snd (btnDecrypt_send (p\<lparr>control_value := (control_value p)(pwDec := l @ v @ r)\<rparr>))
          = snd (btnDecrypt_send (p\<lparr>control_value := (control_value p)(pwDec := v)\<rparr>)))"
proof -
  have a: "filter (\<lambda>e. fst e = ''password'') (form (snd (btnEncrypt_send p)))
     = [(''password'', Field (trim (control_value p pwEnc)))]"
    "filter (\<lambda>e. fst e = ''password'') (form (snd (btnCompare_send p)))
     = [(''password'', Field (trim (control_value p pwCmp)))]"
    "filter (\<lambda>e. fst e = ''password'') (form (snd (btnDecrypt_send p)))
     = [(''password'', Field (trim (control_value p pwDec)))]"
    by (simp_all add: btnEncrypt_send_def btnCompare_send_def btnDecrypt_send_def Let_def
        log_def setStatus_def updateChart_def initChart_def filter_map comp_def)
  have b: "snd (btnEncrypt_send (p\<lparr>control_value := (control_value p)(pwEnc := l @ v @ r)\<rparr>))
          = snd (btnEncrypt_send (p\<lparr>control_value := (control_value p)(pwEnc := v)\<rparr>))
        \<and> snd (btnCompare_send (p\<lparr>control_value := (control_value p)(pwCmp := l @ v @ r)\<rparr>))
          = snd (btnCompare_send (p\<lparr>control_value := (control_value p)(pwCmp := v)\<rparr>))
        \<and> snd (btnDecrypt_send (p\<lparr>control_value := (control_value p)(pwDec := l @ v @ r)\<rparr>))
          = snd (btnDecrypt_send (p\<lparr>control_value := (control_value p)(pwDec := v)\<rparr>))"
    if "trim (l @ v @ r) = trim v"
    using that
    by (simp add: btnEncrypt_send_def btnCompare_send_def btnDecrypt_send_def Let_def
        log_def setStatus_def updateChart_def initChart_def)
  from a b trim_start_clean [of v] trim_end_clean [of v] trim_surrounded [of l r v]
  show ?thesis by blast
qed

theorem password_trimmed_witness:
  "white ''  '' \<and> white [CHR 0x09, CHR 0xC2, CHR 0xA0]
   \<and> trim (''  '' @ ''pass word'' @ [CHR 0x09, CHR 0xC2, CHR 0xA0]) = ''pass word''
   \<and> snd (btnDecrypt_send
           (blank_page\<lparr>control_value := (control_value blank_page)
              (pwDec := ''  '' @ ''pass word'' @ [CHR 0x09, CHR 0xC2, CHR 0xA0])\<rparr>))
      = snd (btnDecrypt_send
           (blank_page\<lparr>control_value := (control_value blank_page)(pwDec := ''pass word'')\<rparr>))"
proof -
  have t: "trim ''pass word'' = ''pass word''"
    by (simp add: trim_eval)
  from password_trimmed [of blank_page "''pass word''" "''  ''" "[CHR 0x09, CHR 0xC2, CHR 0xA0]"]
    white_examples(1,2)
  have "trim (''  '' @ ''pass word'' @ [CHR 0x09, CHR 0xC2, CHR 0xA0]) = trim ''pass word''
   \<and> snd (btnDecrypt_send
           (blank_page\<lparr>control_value := (control_value blank_page)
              (pwDec := ''  '' @ ''pass word'' @ [CHR 0x09, CHR 0xC2, CHR 0xA0])\<rparr>))
      = snd (btnDecrypt_send
           (blank_page\<lparr>control_value := (control_value blank_page)(pwDec := ''pass word'')\<rparr>))"
    by blast
  with white_examples(1,2) t show ?thesis by simp
qed

subsection \<open>Sizes in human units\<close>

lemma digit_char_props:
  assumes "d < 10"
  shows "is_digit (digit_char d)" and "digit_val (digit_char d) = d"
proof -
  from assms have "d \<in> {0, 1, 2, 3, 4, 5, 6, 7, 8, 9}" by auto
  then show "is_digit (digit_char d)" and "digit_val (digit_char d) = d"
    by (auto simp: is_digit_def digit_char_def digit_val_def)
qed

lemma show_nat_digits: "\<forall>c\<in>set (show_nat n). is_digit c"
proof (induction n rule: show_nat.induct)
  case (1 n)
  then show ?case
    by (cases "n < 10") (simp_all add: show_nat.simps [of n] digit_char_props)
qed

lemma read_nat_snoc: "read_nat (ds @ [c]) = 10 * read_nat ds + digit_val c"
  by (simp add: read_nat_def)

lemma read_show_nat: "read_nat (show_nat n) = n"
proof (induction n rule: show_nat.induct)
  case (1 n)
  show ?case
  proof (cases "n < 10")
    case True
    then show ?thesis
      by (simp add: show_nat.simps [of n] read_nat_def digit_char_props)
  next
    case False
    with 1 have "read_nat (show_nat (n div 10)) = n div 10" by simp
    with False show ?thesis
      by (simp add: show_nat.simps [of n] read_nat_snoc digit_char_props)
  qed
qed

lemma digits_then:
  assumes "\<forall>c\<in>set ds. is_digit c" and "\<not> is_digit c"
  shows "takeWhile is_digit (ds @ c # rest) = ds" and "dropWhile is_digit (ds @ c # rest) = c # rest"
  using assms by (simp_all add: takeWhile_append2 dropWhile_append2)

lemma tokens_no_digit: "\<forall>t\<in>set white_space. t \<noteq> [] \<and> \<not> is_digit (hd t)"
  by (simp add: white_space_def is_digit_def)

lemma trimStart_digit: "is_digit c \<Longrightarrow> trimStart (c # s) = c # s"
proof -
  assume c: "is_digit c"
  have "\<not> starts_with (c # s) t" if "t \<in> set white_space" for t
  proof -
    from that tokens_no_digit have "t \<noteq> [] \<and> \<not> is_digit (hd t)" by blast
    with c show ?thesis by (cases t) auto
  qed
  then have "strip_one white_space (c # s) = None"
    by (simp add: strip_one_None)
  then show ?thesis
    unfolding trimStart_def by (rule strip_all_None)
qed

lemma digit_not_symbol:
  assumes "is_digit c"
  shows "c \<noteq> CHR ''+''" "c \<noteq> CHR ''-''" "c \<noteq> CHR ''.''" "c \<noteq> CHR ''I''" "c \<noteq> CHR '' ''"
  using assms by (auto simp: is_digit_def)

lemma parse_digits:
  assumes ds: "\<forall>c\<in>set ds. is_digit c" and ne: "ds \<noteq> []"
  shows "parseFloat (ds @ CHR '' '' # rest) = Finite (of_nat (read_nat ds))"
proof -
  from ne obtain c ds' where d: "ds = c # ds'" by (cases ds) auto
  with ds have c: "is_digit c" by simp
  have sp: "\<not> is_digit CHR '' ''" by (simp add: is_digit_def)
  have t: "trimStart (ds @ CHR '' '' # rest) = c # ds' @ CHR '' '' # rest"
    using trimStart_digit [OF c] d by simp
  have u: "unsigned_literal (ds @ CHR '' '' # rest) = Finite (of_nat (read_nat ds))"
    using digits_then [OF ds sp, of rest] ne c d digit_not_symbol [OF c]
    by (simp add: unsigned_literal_def exponent_def scale10_def Let_def)
  from t u d digit_not_symbol [OF c] show ?thesis
    by (simp add: parseFloat_def)
qed

lemma parse_digits_point:
  assumes ds: "\<forall>c\<in>set ds. is_digit c" and ne: "ds \<noteq> []" and f: "is_digit f"
  shows "parseFloat (ds @ CHR ''.'' # f # CHR '' '' # rest)
           = Finite (of_nat (read_nat ds) + of_nat (digit_val f) / 10)"
proof -
  from ne obtain c ds' where d: "ds = c # ds'" by (cases ds) auto
  with ds have c: "is_digit c" by simp
  have sp: "\<not> is_digit CHR '' ''" "\<not> is_digit CHR ''.''" by (simp_all add: is_digit_def)
  have t: "trimStart (ds @ CHR ''.'' # f # CHR '' '' # rest) = c # ds' @ CHR ''.'' # f # CHR '' '' # rest"
    using trimStart_digit [OF c] d by simp
  have u: "unsigned_literal (ds @ CHR ''.'' # f # CHR '' '' # rest)
      = Finite (of_nat (read_nat ds) + of_nat (digit_val f) / 10)"
    using digits_then [OF ds sp(2), of "f # CHR '' '' # rest"] ne c d digit_not_symbol [OF c] f sp
    by (simp add: unsigned_literal_def exponent_def scale10_def Let_def read_nat_def)
  from t u d digit_not_symbol [OF c] show ?thesis
    by (simp add: parseFloat_def)
qed

lemma nearest_whole: "nearest 0 (of_nat n) = n"
proof -
  have "\<lfloor>(of_nat n :: rat) + 1 / 2\<rfloor> = int n"
    by (rule floor_unique) simp_all
  then show ?thesis by (simp add: nearest_def)
qed

lemma nearest_mono: "0 \<le> x \<Longrightarrow> x \<le> y \<Longrightarrow> nearest d x \<le> nearest d y"
  unfolding nearest_def
  by (intro nat_mono floor_mono) (simp add: mult_right_mono)

lemma nearest_lower: "1 \<le> x \<Longrightarrow> 10 \<le> nearest 1 x"
proof -
  assume "1 \<le> x"
  then have "(10::int) \<le> \<lfloor>x * 10 + 1 / 2\<rfloor>"
    by (simp add: le_floor_iff)
  then have "(10::nat) \<le> nat \<lfloor>x * 10 + 1 / 2\<rfloor>"
    by linarith
  then show ?thesis by (simp add: nearest_def)
qed

lemma nearest_upper: "x < 1024 \<Longrightarrow> nearest 1 x \<le> 10240"
proof -
  assume "x < 1024"
  then have "\<lfloor>x * 10 + 1 / 2\<rfloor> < (10241::int)"
    by (simp add: floor_less_iff)
  then have "nat \<lfloor>x * 10 + 1 / 2\<rfloor> \<le> (10240::nat)"
    by linarith
  then show ?thesis by (simp add: nearest_def)
qed

lemma fixed_one:
  "fixed 1 k @ CHR '' '' # rest
     = show_nat (k div 10) @ CHR ''.'' # digit_char (k mod 10) # CHR '' '' # rest"
  by (simp add: fixed_def pad_zeros_def show_nat.simps [of "k mod 10"])

lemma tenths_split: "of_nat (k div 10) + of_nat (k mod 10) / 10 = (of_nat k / 10 :: rat)"
proof -
  have "(of_nat k :: rat) = of_nat (k div 10 * 10 + k mod 10)" by simp
  also have "\<dots> = of_nat (k div 10) * 10 + of_nat (k mod 10)"
    by (simp only: of_nat_add of_nat_mult of_nat_numeral)
  finally show ?thesis by simp
qed

lemma parse_fixed_one:
  "parseFloat (fixed 1 k @ CHR '' '' # rest) = Finite (of_nat k / 10)"
proof -
  have "parseFloat (show_nat (k div 10) @ CHR ''.'' # digit_char (k mod 10) # CHR '' '' # rest)
      = Finite (of_nat (read_nat (show_nat (k div 10)))
                + of_nat (digit_val (digit_char (k mod 10))) / 10)"
    by (intro parse_digits_point) (simp_all add: show_nat_digits digit_char_props)
  also have "\<dots> = Finite (of_nat (k div 10) + of_nat (k mod 10) / 10)"
    by (simp add: read_show_nat digit_char_props)
  finally show ?thesis
    by (simp only: fixed_one tenths_split)
qed

lemma unit_of_rendering:
  "unit_bytes (x @ '' B'') = Some 1"
  "unit_bytes (x @ '' KB'') = Some 1024"
  "unit_bytes (x @ '' MB'') = Some (1024 ^ 2)"
  "unit_bytes (x @ '' GB'') = Some (1024 ^ 3)"
  by (simp_all add: unit_bytes_def ends_with_def)

lemma rendered_bytes:
  assumes "n < 1024"
  shows "rendered (fmtBytes n) = Some (of_nat n, 1)"
proof -
  have "parseFloat (show_nat n @ CHR '' '' # ''B'') = Finite (of_nat (read_nat (show_nat n)))"
    by (intro parse_digits) (simp_all add: show_nat_digits)
  then have p: "parseFloat (show_nat n @ '' B'') = Finite (of_nat n)"
    by (simp add: read_show_nat)
  have z: "show_nat 0 = ''0''"
    by (simp add: show_nat.simps digit_char_def)
  have "fmtBytes n = show_nat n @ '' B''"
    using assms by (cases "n = 0") (simp_all add: fmtBytes_def fixed_def nearest_whole z)
  with p unit_of_rendering(1) [of "show_nat n"] show ?thesis
    by (simp add: rendered_def)
qed

lemma rendered_unit:
  assumes "0 \<le> x"
  shows "rendered (toFixed 1 (Finite x) @ '' KB'') = Some (of_nat (nearest 1 x) / 10, 1024)"
    and "rendered (toFixed 1 (Finite x) @ '' MB'') = Some (of_nat (nearest 1 x) / 10, 1024 ^ 2)"
    and "rendered (toFixed 1 (Finite x) @ '' GB'') = Some (of_nat (nearest 1 x) / 10, 1024 ^ 3)"
proof -
  have t: "toFixed (Suc 0) (Finite x) = fixed (Suc 0) (nearest (Suc 0) x)"
    using assms by simp
  show "rendered (toFixed 1 (Finite x) @ '' KB'') = Some (of_nat (nearest 1 x) / 10, 1024)"
    using parse_fixed_one [of "nearest 1 x" "''KB''"] unit_of_rendering(2) [of "fixed 1 (nearest 1 x)"]
    by (simp add: rendered_def t del: toFixed.simps)
  show "rendered (toFixed 1 (Finite x) @ '' MB'') = Some (of_nat (nearest 1 x) / 10, 1024 ^ 2)"
    using parse_fixed_one [of "nearest 1 x" "''MB''"] unit_of_rendering(3) [of "fixed 1 (nearest 1 x)"]
    by (simp add: rendered_def t del: toFixed.simps)
  show "rendered (toFixed 1 (Finite x) @ '' GB'') = Some (of_nat (nearest 1 x) / 10, 1024 ^ 3)"
    using parse_fixed_one [of "nearest 1 x" "''GB''"] unit_of_rendering(4) [of "fixed 1 (nearest 1 x)"]
    by (simp add: rendered_def t del: toFixed.simps)
qed

lemma rendered_fmtBytes: "rendered (fmtBytes n) = Some (quantity_of n, unit_of n)"
proof (cases "n < 1024")
  case True
  then show ?thesis
    by (simp add: rendered_bytes quantity_of_def unit_of_def)
next
  case False
  have x: "0 \<le> (of_nat n / u :: rat)" if "0 < u" for u
    using that by simp
  from False show ?thesis
    using rendered_unit [OF x [of 1024]] rendered_unit [OF x [of "1024 ^ 2"]]
      rendered_unit [OF x [of "1024 ^ 3"]]
    by (simp add: fmtBytes_def quantity_of_def unit_of_def del: toFixed.simps)
qed

lemma unit_of_mono: "m \<le> n \<Longrightarrow> unit_of m \<le> unit_of n"
  by (simp add: unit_of_def)

lemma unit_of_step: "unit_of m < unit_of n \<Longrightarrow> 1024 * unit_of m \<le> unit_of n"
  by (simp add: unit_of_def split: if_splits)

lemma unit_of_range:
  "unit_of n \<le> n \<or> n < 1024"
  "unit_of n < 1024 ^ 3 \<Longrightarrow> n < 1024 * unit_of n"
  "0 < unit_of n"
  by (simp_all add: unit_of_def split: if_splits)

lemma quantity_lower:
  assumes "1024 \<le> unit_of n"
  shows "1 \<le> quantity_of n"
proof -
  from assms have n: "\<not> n < 1024" by (simp add: unit_of_def split: if_splits)
  with unit_of_range(1) [of n] have "unit_of n \<le> n" by simp
  then have "(of_nat (unit_of n) :: rat) \<le> of_nat n" by (simp only: of_nat_le_iff)
  with unit_of_range(3) [of n] have "1 \<le> (of_nat n / of_nat (unit_of n) :: rat)"
    by simp
  then have "10 \<le> nearest 1 (of_nat n / of_nat (unit_of n))" by (rule nearest_lower)
  then have "(10 :: rat) \<le> of_nat (nearest 1 (of_nat n / of_nat (unit_of n)))"
    by (metis of_nat_le_iff of_nat_numeral)
  with n show ?thesis by (simp add: quantity_of_def)
qed

lemma quantity_upper:
  assumes "unit_of n < 1024 ^ 3"
  shows "quantity_of n \<le> 1024"
proof (cases "n < 1024")
  case True
  then have "(of_nat n :: rat) \<le> of_nat 1024" by (simp only: of_nat_le_iff)
  with True show ?thesis by (simp add: quantity_of_def)
next
  case False
  from unit_of_range(2) [OF assms] have "(of_nat n :: rat) < of_nat (1024 * unit_of n)"
    by (simp only: of_nat_less_iff)
  with unit_of_range(3) [of n] have "(of_nat n / of_nat (unit_of n) :: rat) < 1024"
    by (simp add: divide_less_eq)
  then have "nearest 1 (of_nat n / of_nat (unit_of n)) \<le> 10240" by (rule nearest_upper)
  then have "(of_nat (nearest 1 (of_nat n / of_nat (unit_of n))) :: rat) \<le> 10240"
    by (metis of_nat_le_iff of_nat_numeral)
  with False show ?thesis by (simp add: quantity_of_def)
qed

lemma quantity_mono:
  assumes "m \<le> n" and "unit_of m = unit_of n"
  shows "quantity_of m \<le> quantity_of n"
proof (cases "n < 1024")
  case True
  with assms(1) show ?thesis by (simp add: quantity_of_def)
next
  case False
  with assms(2) have m: "\<not> m < 1024" by (simp add: unit_of_def split: if_splits)
  have "(of_nat m / of_nat (unit_of n) :: rat) \<le> of_nat n / of_nat (unit_of n)"
    using assms(1) by (simp add: divide_right_mono)
  then have "nearest 1 (of_nat m / of_nat (unit_of n)) \<le> nearest 1 (of_nat n / of_nat (unit_of n))"
    by (intro nearest_mono) simp_all
  with False m assms(2) show ?thesis by (simp add: quantity_of_def)
qed

lemma amount_mono:
  assumes "m \<le> n"
  shows "quantity_of m * of_nat (unit_of m) \<le> quantity_of n * of_nat (unit_of n)"
proof (cases "unit_of m = unit_of n")
  case True
  with quantity_mono [OF assms] show ?thesis
    by (simp add: mult_right_mono)
next
  case False
  with unit_of_mono [OF assms] have lt: "unit_of m < unit_of n" by simp
  then have s: "1024 * unit_of m \<le> unit_of n" by (rule unit_of_step)
  have "unit_of n \<le> 1024 ^ 3" by (simp add: unit_of_def)
  with lt have "unit_of m < 1024 ^ 3" by simp
  then have "quantity_of m \<le> 1024" by (rule quantity_upper)
  then have "quantity_of m * of_nat (unit_of m) \<le> 1024 * of_nat (unit_of m)"
    by (simp add: mult_right_mono)
  also have "\<dots> = of_nat (1024 * unit_of m)" by simp
  also have "\<dots> \<le> (of_nat (unit_of n) :: rat)" using s by (simp only: of_nat_le_iff)
  also have "\<dots> \<le> quantity_of n * of_nat (unit_of n)"
  proof -
    from s unit_of_range(3) [of m] have "1024 \<le> unit_of n" by simp
    then have "1 \<le> quantity_of n" by (rule quantity_lower)
    then have "1 * of_nat (unit_of n) \<le> quantity_of n * (of_nat (unit_of n) :: rat)"
      by (intro mult_right_mono) simp_all
    then show ?thesis by simp
  qed
  finally show ?thesis .
qed

text \<open>
  C9. \<open>fmtBytes\<close> gives \<open>0 B\<close> for 0, a text that ends in \<open>B\<close> after a space for
  1023, \<open>1.0 KB\<close> for 1024, \<open>1.0 MB\<close> for \<open>1024^2\<close> and \<open>1.0 GB\<close> for \<open>1024^3\<close>.
  It is monotonic: for byte counts \<open>m \<le> n\<close> the unit of the rendering of \<open>m\<close> is at
  most the unit of the rendering of \<open>n\<close>, the quantity rendered for \<open>m\<close>, taken in
  its unit, is at most the quantity rendered for \<open>n\<close>, taken in its unit, and when
  the units are equal the quantities themselves are in that order. Quantity and unit
  are read back from the rendered text.
\<close>

theorem fmtBytes_monotone:
  "fmtBytes 0 = ''0 B''
   \<and> fmtBytes 1023 = ''1023 B''
   \<and> ends_with (fmtBytes 1023) '' B''
   \<and> fmtBytes 1024 = ''1.0 KB''
   \<and> fmtBytes (1024 ^ 2) = ''1.0 MB''
   \<and> fmtBytes (1024 ^ 3) = ''1.0 GB''
   \<and> (m \<le> n \<longrightarrow>
        (\<exists>qm um qn un.
           rendered (fmtBytes m) = Some (qm, um) \<and> rendered (fmtBytes n) = Some (qn, un)
           \<and> um \<le> un \<and> qm * of_nat um \<le> qn * of_nat un \<and> (um = un \<longrightarrow> qm \<le> qn)))"
proof -
  have a: "fmtBytes 0 = ''0 B''" "fmtBytes 1023 = ''1023 B''" "fmtBytes 1024 = ''1.0 KB''"
    "fmtBytes (1024 ^ 2) = ''1.0 MB''" "fmtBytes (1024 ^ 3) = ''1.0 GB''"
    by (simp_all add: fmtBytes_def fixed_eval)
  have b: "ends_with (fmtBytes 1023) '' B''"
    by (simp add: a ends_with_def)
  have c: "\<exists>qm um qn un.
           rendered (fmtBytes m) = Some (qm, um) \<and> rendered (fmtBytes n) = Some (qn, un)
           \<and> um \<le> un \<and> qm * of_nat um \<le> qn * of_nat un \<and> (um = un \<longrightarrow> qm \<le> qn)"
    if "m \<le> n"
    using rendered_fmtBytes [of m] rendered_fmtBytes [of n] unit_of_mono [OF that]
      amount_mono [OF that] quantity_mono [OF that]
    by blast
  from a b c show ?thesis by blast
qed

theorem fmtBytes_monotone_witness:
  "(1023::nat) \<le> 1536
   \<and> rendered (fmtBytes 1023) = Some (1023, 1)
   \<and> rendered (fmtBytes 1536) = Some (3 / 2, 1024)
   \<and> (1023::rat) * of_nat 1 \<le> 3 / 2 * of_nat 1024"
proof -
  have q: "quantity_of 1023 = 1023" "unit_of 1023 = 1" "quantity_of 1536 = 3 / 2" "unit_of 1536 = 1024"
    by (simp_all add: quantity_of_def unit_of_def nearest_def)
  have r: "rendered (fmtBytes 1023) = Some (1023, 1)" "rendered (fmtBytes 1536) = Some (3 / 2, 1024)"
    using rendered_fmtBytes [of 1023] rendered_fmtBytes [of 1536] by (simp_all add: q)
  from fmtBytes_monotone [of 1023 1536] obtain qm um qn un where
    "rendered (fmtBytes 1023) = Some (qm, um)" "rendered (fmtBytes 1536) = Some (qn, un)"
    "qm * of_nat um \<le> qn * of_nat un"
    by auto
  with r have "(1023::rat) * of_nat 1 \<le> 3 / 2 * of_nat 1024" by simp
  with r show ?thesis by simp
qed

end
